theory Spec2Isabelle
  imports Complex_Main "HOL-Library.Char_ord" "HOL-Library.List_Lexorder" "HOL-Library.AList"
begin

section \<open>FleetOTA: vehicle simulator and update manager\<close>

text \<open>
  A shallow embedding of \<^verbatim>\<open>vehicle-simulator/vehicle_generator.py\<close> and of
  \<^verbatim>\<open>lambda-functions/update-manager/lambda_function.py\<close>.

  Conventions of the model:
  \<^item> a Python \<^verbatim>\<open>str\<close> is the list of its code points, a \<open>pystr\<close>: every code point
    is there, and comparison of two strings is lexicographic by code point, as in
    Python; \<open>str_lit\<close> gives the code points of a literal of the source;
  \<^item> a Python \<^verbatim>\<open>float\<close> is a \<open>real\<close>: rounding error of the arithmetic and the
    non-finite values are not modelled;
  \<^item> every call of the \<^verbatim>\<open>random\<close> module is an explicit argument (a record of the
    values drawn), so that a statement "for every outcome of the random draws" is a
    universally quantified one;
  \<^item> an exception is a value \<open>Inl e\<close> of a sum type.
\<close>

datatype py_error =
  IndexError | ValueError | TypeError | AttributeError | ZeroDivisionError | DownloadError

type_synonym pystr = "nat list"

definition str_lit :: "string \<Rightarrow> pystr" where
  "str_lit cs = map of_char cs"

subsection \<open>The built-ins \<^verbatim>\<open>str.isdigit\<close> and \<^verbatim>\<open>int\<close> on one character\<close>

text \<open>
  Both read the Unicode database of the interpreter, whose tables grow with the
  version of Python, so the database is an argument of the model: which code points
  have \<^verbatim>\<open>Numeric_Type=Digit\<close>, and which have \<^verbatim>\<open>Numeric_Type=Decimal\<close>, with their value.
\<close>

record unicode_db =
  digit_type :: "nat \<Rightarrow> bool"
  decimal_value :: "nat \<Rightarrow> nat option"

text \<open>
  \<^verbatim>\<open>char.isdigit()\<close> for one character: its numeric type is \<^verbatim>\<open>Digit\<close> or
  \<^verbatim>\<open>Decimal\<close>.
\<close>

definition isdigit :: "unicode_db \<Rightarrow> nat \<Rightarrow> bool" where
  "isdigit U c = (digit_type U c \<or> decimal_value U c \<noteq> None)"

text \<open>
  \<^verbatim>\<open>int(char)\<close> for a string of one character: the value of a decimal digit; any other
  character is not a decimal literal and raises \<^verbatim>\<open>ValueError\<close>.
\<close>

definition int_of_char :: "unicode_db \<Rightarrow> nat \<Rightarrow> py_error + nat" where
  "int_of_char U c = (case decimal_value U c of Some v \<Rightarrow> Inr v | None \<Rightarrow> Inl ValueError)"

text \<open>
  The rows of the database for the code points below 256, the same in every version:
  the ASCII digits are decimal, and the superscripts U+00B2, U+00B3 and U+00B9 are
  digits that are not decimal. This table describes no code point from 256 on, and
  is used to run the model on strings of code points below 256 only.
\<close>

definition unicode_latin1 :: unicode_db where
  "unicode_latin1 =
    \<lparr>digit_type = (\<lambda>c. c \<in> {178, 179, 185}),
     decimal_value = (\<lambda>c. if 48 \<le> c \<and> c \<le> 57 then Some (c - 48) else None)\<rparr>"

subsection \<open>VINGenerator\<close>

definition WMI_CODES :: "(pystr \<times> pystr) list" where
  "WMI_CODES =
    [(str_lit ''TESLA'', str_lit ''5YJ''), (str_lit ''FORD'', str_lit ''1FA''),
     (str_lit ''GM'', str_lit ''1G1''), (str_lit ''TOYOTA'', str_lit ''5TD''),
     (str_lit ''HONDA'', str_lit ''1HG''), (str_lit ''VOLKSWAGEN'', str_lit ''WVW''),
     (str_lit ''BMW'', str_lit ''WBA''), (str_lit ''MERCEDES'', str_lit ''WDD'')]"

definition VIN_WEIGHTS :: "nat list" where
  "VIN_WEIGHTS = [8, 7, 6, 5, 4, 3, 2, 10, 0, 9, 8, 7, 6, 5, 4, 3, 2]"

definition VIN_TRANSLITERATION :: "(nat \<times> nat) list" where
  "VIN_TRANSLITERATION =
    map (\<lambda>(c, v). (of_char c, v))
     [(CHR ''A'', 1), (CHR ''B'', 2), (CHR ''C'', 3), (CHR ''D'', 4), (CHR ''E'', 5),
      (CHR ''F'', 6), (CHR ''G'', 7), (CHR ''H'', 8),
      (CHR ''J'', 1), (CHR ''K'', 2), (CHR ''L'', 3), (CHR ''M'', 4), (CHR ''N'', 5),
      (CHR ''P'', 7), (CHR ''R'', 9), (CHR ''S'', 2),
      (CHR ''T'', 3), (CHR ''U'', 4), (CHR ''V'', 5), (CHR ''W'', 6), (CHR ''X'', 7),
      (CHR ''Y'', 8), (CHR ''Z'', 9)]"

text \<open>The body of the loop of \<^verbatim>\<open>calculate_check_digit\<close> up to the weight: the value of one character.\<close>

definition char_value :: "unicode_db \<Rightarrow> nat \<Rightarrow> py_error + nat" where
  "char_value U c =
    (if isdigit U c then int_of_char U c
     else Inr (case map_of VIN_TRANSLITERATION c of Some v \<Rightarrow> v | None \<Rightarrow> 0))"

text \<open>
  The loop \<^verbatim>\<open>for i, char in enumerate(vin_without_check)\<close>, from index \<open>i\<close> with the
  running total \<open>tot\<close>. \<^verbatim>\<open>VIN_WEIGHTS[i]\<close> raises \<^verbatim>\<open>IndexError\<close> from index 17 on; the value of
  the character is computed first.
\<close>

fun check_digit_loop :: "unicode_db \<Rightarrow> nat \<Rightarrow> nat \<Rightarrow> pystr \<Rightarrow> py_error + nat" where
  "check_digit_loop U i tot [] = Inr tot"
| "check_digit_loop U i tot (c # cs) =
    (case char_value U c of
       Inl e \<Rightarrow> Inl e
     | Inr v \<Rightarrow>
        (if i < length VIN_WEIGHTS
         then check_digit_loop U (Suc i) (tot + v * (VIN_WEIGHTS ! i)) cs
         else Inl IndexError))"

text \<open>
  \<^verbatim>\<open>str(n)\<close> for \<open>n\<close> below 10, the only values it is called on (a residue modulo 11
  other than 10, and \<^verbatim>\<open>random.randint(0, 9)\<close>): the one ASCII digit of \<open>n\<close>.
\<close>

definition digit_char :: "nat \<Rightarrow> nat" where
  "digit_char n = 48 + n"

definition calculate_check_digit :: "unicode_db \<Rightarrow> pystr \<Rightarrow> py_error + pystr" where
  "calculate_check_digit U vin_without_check =
    (case check_digit_loop U 0 0 vin_without_check of
       Inl e \<Rightarrow> Inl e
     | Inr tot \<Rightarrow>
        (let check_digit = tot mod 11
         in Inr (if check_digit = 10 then str_lit ''X'' else [digit_char check_digit])))"

text \<open>
  The random draws of \<^verbatim>\<open>generate\<close>: five characters of the 33-character alphabet, a
  year code, a plant code and six digits.
\<close>

record vin_draws =
  vds :: pystr
  year_code :: nat
  plant_code :: nat
  serial :: "nat list"

definition VDS_ALPHABET :: pystr where
  "VDS_ALPHABET = str_lit ''ABCDEFGHJKLMNPRSTUVWXYZ0123456789''"

definition YEAR_ALPHABET :: pystr where
  "YEAR_ALPHABET = str_lit ''LMNPRSTUVWXYZ''"

definition PLANT_ALPHABET :: pystr where
  "PLANT_ALPHABET = str_lit ''ABCDEFGHJKLMNPRSTUVWXYZ''"

definition valid_vin_draws :: "vin_draws \<Rightarrow> bool" where
  "valid_vin_draws d =
    (length (vds d) = 5 \<and> list_all (\<lambda>c. c \<in> set VDS_ALPHABET) (vds d) \<and>
     year_code d \<in> set YEAR_ALPHABET \<and>
     plant_code d \<in> set PLANT_ALPHABET \<and>
     length (serial d) = 6 \<and> list_all (\<lambda>n. n \<le> 9) (serial d))"

definition generate :: "unicode_db \<Rightarrow> pystr \<Rightarrow> vin_draws \<Rightarrow> py_error + pystr" where
  "generate U manufacturer d =
    (let wmi = (case map_of WMI_CODES manufacturer of Some w \<Rightarrow> w | None \<Rightarrow> str_lit ''5YJ'');
         vin_without_check =
           wmi @ vds d @ [year_code d] @ [plant_code d] @ map digit_char (serial d)
     in case calculate_check_digit U (take 8 vin_without_check @ drop 9 vin_without_check) of
          Inl e \<Rightarrow> Inl e
        | Inr check_digit \<Rightarrow>
            Inr (take 8 vin_without_check @ check_digit @ drop 8 vin_without_check))"

subsection \<open>JSON values and the Python operations on them\<close>

text \<open>
  A telemetry snapshot is what \<^verbatim>\<open>json.loads\<close> returns and \<^verbatim>\<open>json.dumps\<close> takes. A
  \<^verbatim>\<open>dict\<close> is an association list in insertion order, read with \<open>map_of\<close>; \<^verbatim>\<open>int\<close> and
  \<^verbatim>\<open>float\<close> are both \<open>JNum\<close>.
\<close>

datatype json =
  JNull | JBool bool | JNum real | JStr pystr | JArr "json list" | JObj "(pystr \<times> json) list"

text \<open>The numeric value of a number or of a \<^verbatim>\<open>bool\<close> (a subclass of \<^verbatim>\<open>int\<close> in Python).\<close>

fun num_of :: "json \<Rightarrow> real option" where
  "num_of (JBool b) = Some (if b then 1 else 0)"
| "num_of (JNum r) = Some r"
| "num_of _ = None"

text \<open>
  \<^verbatim>\<open>x == y\<close>: never raises; numbers and booleans compare by value, lists element by
  element, dicts key by key whatever the order, and values of different kinds differ.
\<close>

function (sequential) py_eq :: "json \<Rightarrow> json \<Rightarrow> bool" where
  "py_eq JNull JNull = True"
| "py_eq (JStr a) (JStr b) = (a = b)"
| "py_eq (JArr xs) (JArr ys) = list_all2 py_eq xs ys"
| "py_eq (JObj a) (JObj b) =
     (list_all (\<lambda>k. case map_of a k of
                       None \<Rightarrow> False
                     | Some v \<Rightarrow> (case map_of b k of None \<Rightarrow> False | Some w \<Rightarrow> py_eq v w))
        (map fst a) \<and>
      list_all (\<lambda>k. map_of a k \<noteq> None) (map fst b))"
| "py_eq x y = (case num_of x of
                  None \<Rightarrow> False
                | Some a \<Rightarrow> (case num_of y of None \<Rightarrow> False | Some b \<Rightarrow> a = b))"
  by pat_completeness auto
termination
proof (relation "measure (\<lambda>(x, y). size x + size y)", goal_cases)
  case 1
  show ?case by simp
next
  case (2 xs ys x y)
  have le: "z \<in> set zs \<Longrightarrow> size z \<le> size_list size zs" for z :: json and zs
    by (induction zs) auto
  from 2 le [of x xs] le [of y ys] show ?case by simp
next
  case (3 a b k v w)
  have less: "map_of kvs j = Some u \<Longrightarrow> size u < size (JObj kvs)" for kvs j and u :: json
    by (induction kvs) (auto split: if_splits)
  from 3 less [of a k v] less [of b k w] show ?case by simp
qed

text \<open>
  \<^verbatim>\<open>x > y\<close>: strings by code point, numbers and booleans by value, lists by the first
  pair of elements that differ and then by length; any other pair raises \<^verbatim>\<open>TypeError\<close>.
\<close>

fun py_gt :: "json \<Rightarrow> json \<Rightarrow> py_error + bool"
  and list_gt :: "json list \<Rightarrow> json list \<Rightarrow> py_error + bool" where
  "py_gt (JStr a) (JStr b) = Inr (b < a)"
| "py_gt (JArr xs) (JArr ys) = list_gt xs ys"
| "py_gt x y = (case num_of x of
                  None \<Rightarrow> Inl TypeError
                | Some a \<Rightarrow> (case num_of y of None \<Rightarrow> Inl TypeError | Some b \<Rightarrow> Inr (b < a)))"
| "list_gt [] ys = Inr False"
| "list_gt (x # xs) [] = Inr True"
| "list_gt (x # xs) (y # ys) = (if py_eq x y then list_gt xs ys else py_gt x y)"

text \<open>\<^verbatim>\<open>x < y\<close> on these built-in types is \<^verbatim>\<open>y > x\<close>.\<close>

definition py_lt :: "json \<Rightarrow> json \<Rightarrow> py_error + bool" where
  "py_lt x y = py_gt y x"

text \<open>\<^verbatim>\<open>d.get(key, default)\<close>: a value that is not a dict has no \<^verbatim>\<open>get\<close>.\<close>

fun py_get :: "json \<Rightarrow> pystr \<Rightarrow> json \<Rightarrow> py_error + json" where
  "py_get (JObj kvs) key dflt = Inr (case map_of kvs key of Some v \<Rightarrow> v | None \<Rightarrow> dflt)"
| "py_get _ key dflt = Inl AttributeError"

text \<open>
  A value used as a key of a dict: lists and dicts are unhashable (\<^verbatim>\<open>TypeError\<close>);
  keys that are equal by \<^verbatim>\<open>==\<close> are one key, so \<^verbatim>\<open>True\<close>, \<^verbatim>\<open>1\<close> and \<^verbatim>\<open>1.0\<close> are the same
  \<open>KNum 1\<close>, and \<^verbatim>\<open>None\<close> is the key \<open>KNone\<close>.
\<close>

datatype vkey = KNone | KNum real | KStr pystr

fun key_of :: "json \<Rightarrow> py_error + vkey" where
  "key_of JNull = Inr KNone"
| "key_of (JBool b) = Inr (KNum (if b then 1 else 0))"
| "key_of (JNum r) = Inr (KNum r)"
| "key_of (JStr s) = Inr (KStr s)"
| "key_of (JArr xs) = Inl TypeError"
| "key_of (JObj kvs) = Inl TypeError"

text \<open>
  \<^verbatim>\<open>round(x, ndigits)\<close> of a float rounds the exact value to the nearest multiple of
  \<open>10 ^ -ndigits\<close>, a tie to the even one.
\<close>

definition round_half_even :: "real \<Rightarrow> int" where
  "round_half_even y =
    (let f = \<lfloor>y\<rfloor>; d = y - of_int f
     in if d < 1 / 2 then f else if 1 / 2 < d then f + 1 else if even f then f else f + 1)"

definition py_round :: "real \<Rightarrow> nat \<Rightarrow> real" where
  "py_round x ndigits = of_int (round_half_even (x * 10 ^ ndigits)) / 10 ^ ndigits"

subsection \<open>GPSSimulator\<close>

record gps_simulator =
  latitude :: real
  longitude :: real
  speed_kmh :: real

text \<open>The four draws of \<^verbatim>\<open>update_position\<close>, in the order of the calls; \<open>angle\<close> is drawn and not used.\<close>

record gps_draws =
  speed_change :: real
  angle :: real
  lat_factor :: real
  lon_factor :: real

definition valid_gps_draws :: "gps_draws \<Rightarrow> bool" where
  "valid_gps_draws d =
    (- 5 \<le> speed_change d \<and> speed_change d \<le> 5 \<and> 0 \<le> angle d \<and> angle d \<le> 360 \<and>
     - 1 \<le> lat_factor d \<and> lat_factor d \<le> 1 \<and> - 1 \<le> lon_factor d \<and> lon_factor d \<le> 1)"

definition update_position ::
  "gps_simulator \<Rightarrow> int \<Rightarrow> gps_draws \<Rightarrow> (real \<times> real) \<times> gps_simulator" where
  "update_position self time_elapsed_seconds d =
    (let speed = max 0 (min 120 (speed_kmh self + speed_change d));
         distance_km = (speed * of_int time_elapsed_seconds) / 3600;
         distance_deg = distance_km / 111;
         lat1 = latitude self + distance_deg * lat_factor d * (1 / 10);
         lon1 = longitude self + distance_deg * lon_factor d * (1 / 10);
         lat2 = max (- 85) (min 85 lat1);
         lon2 = max (- 180) (min 180 lon1)
     in ((py_round lat2 6, py_round lon2 6),
         self\<lparr>latitude := lat2, longitude := lon2, speed_kmh := speed\<rparr>))"

text \<open>
  A sequence of calls, each with its elapsed time and its draws: the list of the
  results (returned coordinates and state) after each call, oldest first.
\<close>

fun update_positions ::
  "gps_simulator \<Rightarrow> (int \<times> gps_draws) list \<Rightarrow> ((real \<times> real) \<times> gps_simulator) list" where
  "update_positions self [] = []"
| "update_positions self ((t, d) # calls) =
    (let r = update_position self t d in r # update_positions (snd r) calls)"

subsection \<open>Vehicle\<close>

datatype VehicleStatus = ONLINE | OFFLINE | UPDATING | ERROR

fun status_value :: "VehicleStatus \<Rightarrow> pystr" where
  "status_value ONLINE = str_lit ''online''"
| "status_value OFFLINE = str_lit ''offline''"
| "status_value UPDATING = str_lit ''updating''"
| "status_value ERROR = str_lit ''error''"

datatype ConnectivityType = LTE | FIVEG | WIFI | SATELLITE

fun connectivity_value :: "ConnectivityType \<Rightarrow> pystr" where
  "connectivity_value LTE = str_lit ''4G_LTE''"
| "connectivity_value FIVEG = str_lit ''5G''"
| "connectivity_value WIFI = str_lit ''WiFi''"
| "connectivity_value SATELLITE = str_lit ''Satellite''"

text \<open>
  The attributes of a \<^verbatim>\<open>Vehicle\<close>. \<open>last_update_check\<close> holds the ISO form of the
  \<^verbatim>\<open>datetime\<close>, the only way it is read.
\<close>

record vehicle =
  vehicle_id :: int
  vin :: pystr
  model :: pystr
  year :: int
  gps :: gps_simulator
  firmware_version :: pystr
  battery_percent :: real
  battery_health :: real
  odometer_km :: real
  status :: VehicleStatus
  connectivity :: ConnectivityType
  signal_strength :: int
  last_update_check :: pystr
  update_available :: bool
  update_downloaded :: bool

text \<open>
  The draws of \<^verbatim>\<open>simulate_battery_drain\<close>: the drain sample, and the two draws of the
  charging branch (\<^verbatim>\<open>random.random()\<close> and the amount), read only where the code
  draws them.
\<close>

record battery_draws =
  drain_sample :: real
  charge_chance :: real
  charge_amount :: real

definition valid_battery_draws :: "battery_draws \<Rightarrow> bool" where
  "valid_battery_draws d =
    (1 / 10 \<le> drain_sample d \<and> drain_sample d \<le> 1 / 2 \<and>
     0 \<le> charge_chance d \<and> charge_chance d < 1 \<and>
     10 \<le> charge_amount d \<and> charge_amount d \<le> 30)"

definition simulate_battery_drain :: "vehicle \<Rightarrow> int \<Rightarrow> battery_draws \<Rightarrow> vehicle" where
  "simulate_battery_drain self time_elapsed_seconds d =
    (if status self = ONLINE then
       (let drain_rate = drain_sample d * (of_int time_elapsed_seconds / 60);
            b1 = max 5 (battery_percent self - drain_rate)
        in if b1 < 30 \<and> charge_chance d < 1 / 10
           then self\<lparr>battery_percent := min 100 (b1 + charge_amount d)\<rparr>
           else self\<lparr>battery_percent := b1\<rparr>)
     else self)"

text \<open>A sequence of ticks of the battery, each with its elapsed time and its draws.\<close>

fun simulate_battery_drains :: "vehicle \<Rightarrow> (int \<times> battery_draws) list \<Rightarrow> vehicle" where
  "simulate_battery_drains self [] = self"
| "simulate_battery_drains self ((t, d) # ticks) =
    simulate_battery_drains (simulate_battery_drain self t d) ticks"

definition generate_warnings :: "vehicle \<Rightarrow> pystr list" where
  "generate_warnings self =
    (if battery_percent self < 15 then [str_lit ''LOW_BATTERY''] else []) @
    (if signal_strength self < - 80 then [str_lit ''WEAK_SIGNAL''] else []) @
    (if battery_health self < 70 then [str_lit ''BATTERY_HEALTH_DEGRADED''] else [])"

text \<open>
  The draws of one \<^verbatim>\<open>generate_telemetry\<close>, and the clock: \<open>now\<close> is
  \<^verbatim>\<open>datetime.now().isoformat()\<close>.
\<close>

record tick_draws =
  gps_d :: gps_draws
  battery_d :: battery_draws
  connectivity_chance :: real
  new_connectivity :: ConnectivityType
  new_signal_strength :: int
  offline_chance :: real
  online_chance :: real
  heading :: int
  voltage :: real
  temperature_celsius :: real
  data_usage_mb :: real
  health_score :: real
  now :: pystr

text \<open>The state changes of \<^verbatim>\<open>generate_telemetry\<close>, in the order of the code, and the coordinates returned by the GPS.\<close>

definition tick_state :: "vehicle \<Rightarrow> tick_draws \<Rightarrow> (real \<times> real) \<times> vehicle" where
  "tick_state self d =
    (let (pos, g) = update_position (gps self) 60 (gps_d d);
         v1 = self\<lparr>gps := g\<rparr>;
         v2 = simulate_battery_drain v1 60 (battery_d d);
         v3 = v2\<lparr>odometer_km := odometer_km v2 + speed_kmh (gps v2) / 60\<rparr>;
         v4 = (if connectivity_chance d < 5 / 100
               then v3\<lparr>connectivity := new_connectivity d,
                       signal_strength := new_signal_strength d\<rparr>
               else v3);
         v5 = (if offline_chance d < 2 / 100 then v4\<lparr>status := OFFLINE\<rparr>
               else if status v4 = OFFLINE \<and> online_chance d < 3 / 10 then v4\<lparr>status := ONLINE\<rparr>
               else v4)
     in (pos, v5))"

definition generate_telemetry :: "vehicle \<Rightarrow> tick_draws \<Rightarrow> json \<times> vehicle" where
  "generate_telemetry self d =
    (let ((lat, lon), v) = tick_state self d;
         telemetry = JObj
          [(str_lit ''vehicle_id'', JNum (of_int (vehicle_id v))),
           (str_lit ''vin'', JStr (vin v)),
           (str_lit ''timestamp'', JStr (now d)),
           (str_lit ''model'', JStr (model v)),
           (str_lit ''year'', JNum (of_int (year v))),
           (str_lit ''gps'', JObj
             [(str_lit ''latitude'', JNum lat),
              (str_lit ''longitude'', JNum lon),
              (str_lit ''speed_kmh'', JNum (py_round (speed_kmh (gps v)) 2)),
              (str_lit ''heading'', JNum (of_int (heading d)))]),
           (str_lit ''battery'', JObj
             [(str_lit ''percent'', JNum (py_round (battery_percent v) 2)),
              (str_lit ''health'', JNum (py_round (battery_health v) 2)),
              (str_lit ''voltage'', JNum (py_round (voltage d) 2)),
              (str_lit ''temperature_celsius'', JNum (py_round (temperature_celsius d) 1))]),
           (str_lit ''connectivity'', JObj
             [(str_lit ''type'', JStr (connectivity_value (connectivity v))),
              (str_lit ''signal_strength_dbm'', JNum (of_int (signal_strength v))),
              (str_lit ''data_usage_mb'', JNum (py_round (data_usage_mb d) 2)),
              (str_lit ''connected'', JBool (status v \<noteq> OFFLINE))]),
           (str_lit ''status'', JStr (status_value (status v))),
           (str_lit ''odometer_km'', JNum (py_round (odometer_km v) 1)),
           (str_lit ''firmware'', JObj
             [(str_lit ''current_version'', JStr (firmware_version v)),
              (str_lit ''update_available'', JBool (update_available v)),
              (str_lit ''update_downloaded'', JBool (update_downloaded v)),
              (str_lit ''last_update_check'', JStr (last_update_check v))]),
           (str_lit ''diagnostics'', JObj
             [(str_lit ''error_codes'', JArr []),
              (str_lit ''warnings'', JArr (map JStr (generate_warnings v))),
              (str_lit ''health_score'', JNum (py_round (health_score d) 1))])]
     in (telemetry, v))"

subsection \<open>Update manager: \<^verbatim>\<open>analyze_fleet\<close>\<close>

definition LATEST_FIRMWARE_VERSION :: pystr where
  "LATEST_FIRMWARE_VERSION = str_lit ''2.0.0''"

definition MINIMUM_BATTERY_PERCENT :: real where
  "MINIMUM_BATTERY_PERCENT = 50"

definition UPDATE_PRIORITY_VERSIONS :: "pystr list" where
  "UPDATE_PRIORITY_VERSIONS = [str_lit ''1.2.0'', str_lit ''1.2.1'']"

text \<open>
  The dict \<^verbatim>\<open>vehicles\<close>: keys in insertion order. \<^verbatim>\<open>vehicles[k] = t\<close> is
  \<open>AList.update k t\<close>: it replaces the value of a key that is there, in place, and
  appends a new key.
\<close>

type_synonym vehicles = "(vkey \<times> json) list"

text \<open>
  The body of the \<^verbatim>\<open>try\<close> in the first loop, for one file. The argument is what
  \<^verbatim>\<open>download_telemetry\<close> did for the file key: it raised (the store failed, or the
  content is not JSON), or it returned the parsed value.
\<close>

definition process_file_try :: "vehicles \<Rightarrow> py_error + json \<Rightarrow> py_error + vehicles" where
  "process_file_try vehicles download =
    (case download of
       Inl e \<Rightarrow> Inl e
     | Inr telemetry \<Rightarrow>
        (case py_get telemetry (str_lit ''vehicle_id'') JNull of
           Inl e \<Rightarrow> Inl e
         | Inr vid \<Rightarrow>
            (case key_of vid of
               Inl e \<Rightarrow> Inl e
             | Inr k \<Rightarrow>
                (case map_of vehicles k of
                   None \<Rightarrow> Inr (AList.update k telemetry vehicles)
                 | Some kept \<Rightarrow>
                    (case py_get telemetry (str_lit ''timestamp'') (JStr []) of
                       Inl e \<Rightarrow> Inl e
                     | Inr ts \<Rightarrow>
                        (case py_get kept (str_lit ''timestamp'') (JStr []) of
                           Inl e \<Rightarrow> Inl e
                         | Inr kept_ts \<Rightarrow>
                            (case py_gt ts kept_ts of
                               Inl e \<Rightarrow> Inl e
                             | Inr newer \<Rightarrow>
                                 Inr (if newer then AList.update k telemetry vehicles
                                      else vehicles))))))))"

text \<open>\<^verbatim>\<open>except Exception: ... continue\<close>: a file that raises leaves \<^verbatim>\<open>vehicles\<close> as it was.\<close>

definition process_file :: "vehicles \<Rightarrow> py_error + json \<Rightarrow> vehicles" where
  "process_file vehicles download =
    (case process_file_try vehicles download of Inl e \<Rightarrow> vehicles | Inr vs \<Rightarrow> vs)"

text \<open>The first loop of \<^verbatim>\<open>analyze_fleet\<close>, over the files in their order.\<close>

definition dedup_from :: "vehicles \<Rightarrow> (py_error + json) list \<Rightarrow> vehicles" where
  "dedup_from vehicles files = foldl process_file vehicles files"

definition dedup :: "(py_error + json) list \<Rightarrow> vehicles" where
  "dedup files = dedup_from [] files"

text \<open>
  \<^verbatim>\<open>fleet_status\<close>. The two \<^verbatim>\<open>defaultdict\<close>s are association lists in insertion order; a
  key that was never touched is absent.
\<close>

record fleet_status =
  total_vehicles :: int
  update_eligible :: int
  update_in_progress :: int
  up_to_date :: int
  insufficient_battery :: int
  offline :: int
  firmware_distribution :: "(vkey \<times> int) list"
  vehicles_by_status :: "(pystr \<times> vkey list) list"

definition initial_fleet_status :: fleet_status where
  "initial_fleet_status =
    \<lparr>total_vehicles = 0, update_eligible = 0, update_in_progress = 0, up_to_date = 0,
     insufficient_battery = 0, offline = 0, firmware_distribution = [],
     vehicles_by_status = []\<rparr>"

text \<open>\<^verbatim>\<open>d[k] += 1\<close> and \<^verbatim>\<open>d[k].append(v)\<close> on a \<^verbatim>\<open>defaultdict\<close>.\<close>

definition increment :: "vkey \<Rightarrow> (vkey \<times> int) list \<Rightarrow> (vkey \<times> int) list" where
  "increment k d = AList.update k ((case map_of d k of Some n \<Rightarrow> n | None \<Rightarrow> 0) + 1) d"

definition append_to ::
  "pystr \<Rightarrow> vkey \<Rightarrow> (pystr \<times> vkey list) list \<Rightarrow> (pystr \<times> vkey list) list" where
  "append_to k v d = AList.update k ((case map_of d k of Some l \<Rightarrow> l | None \<Rightarrow> []) @ [v]) d"

text \<open>
  Sequencing of two steps of which the first may raise: the exception of the first
  step is the result, and the second step is not run.
\<close>

definition try_bind :: "py_error + 'a \<Rightarrow> ('a \<Rightarrow> py_error + 'b) \<Rightarrow> py_error + 'b" where
  "try_bind m f = (case m of Inl e \<Rightarrow> Inl e | Inr x \<Rightarrow> f x)"

text \<open>
  The block \<^verbatim>\<open># Extract vehicle info\<close> of the second loop: the four values read from
  one snapshot, in the order of the code (firmware version, battery percent, status,
  update flag). The firmware dict is fetched twice, as in the code.
\<close>

definition extract_info :: "json \<Rightarrow> py_error + (json \<times> json \<times> json \<times> json)" where
  "extract_info telemetry =
    try_bind (py_get telemetry (str_lit ''firmware'') (JObj [])) (\<lambda>firmware.
    try_bind (py_get firmware (str_lit ''current_version'') (JStr (str_lit ''unknown''))) (\<lambda>fw_version.
    try_bind (py_get telemetry (str_lit ''battery'') (JObj [])) (\<lambda>battery.
    try_bind (py_get battery (str_lit ''percent'') (JNum 0)) (\<lambda>percent.
    try_bind (py_get telemetry (str_lit ''status'') (JStr (str_lit ''unknown''))) (\<lambda>st.
    try_bind (py_get telemetry (str_lit ''firmware'') (JObj [])) (\<lambda>firmware2.
    try_bind (py_get firmware2 (str_lit ''update_available'') (JBool False)) (\<lambda>upd.
    Inr (fw_version, percent, st, upd))))))))"

text \<open>
  One of the five branches of the \<^verbatim>\<open>if\<close> chain: the counter of the branch goes up by
  one and the vehicle id is appended to the list of the branch.
\<close>

definition count_updating :: "vkey \<Rightarrow> fleet_status \<Rightarrow> fleet_status" where
  "count_updating vid fs =
    fs\<lparr>update_in_progress := update_in_progress fs + 1,
       vehicles_by_status := append_to (str_lit ''updating'') vid (vehicles_by_status fs)\<rparr>"

definition count_offline :: "vkey \<Rightarrow> fleet_status \<Rightarrow> fleet_status" where
  "count_offline vid fs =
    fs\<lparr>offline := offline fs + 1,
       vehicles_by_status := append_to (str_lit ''offline'') vid (vehicles_by_status fs)\<rparr>"

definition count_up_to_date :: "vkey \<Rightarrow> fleet_status \<Rightarrow> fleet_status" where
  "count_up_to_date vid fs =
    fs\<lparr>up_to_date := up_to_date fs + 1,
       vehicles_by_status := append_to (str_lit ''up_to_date'') vid (vehicles_by_status fs)\<rparr>"

definition count_low_battery :: "vkey \<Rightarrow> fleet_status \<Rightarrow> fleet_status" where
  "count_low_battery vid fs =
    fs\<lparr>insufficient_battery := insufficient_battery fs + 1,
       vehicles_by_status := append_to (str_lit ''low_battery'') vid (vehicles_by_status fs)\<rparr>"

definition count_eligible :: "vkey \<Rightarrow> fleet_status \<Rightarrow> fleet_status" where
  "count_eligible vid fs =
    fs\<lparr>update_eligible := update_eligible fs + 1,
       vehicles_by_status := append_to (str_lit ''eligible'') vid (vehicles_by_status fs)\<rparr>"

text \<open>
  The body of the second loop, for one entry of \<^verbatim>\<open>vehicles\<close>. Nothing catches an
  exception here: it ends \<^verbatim>\<open>analyze_fleet\<close>. \<^verbatim>\<open>update_available\<close> is read and not used;
  the log line of the last branch has no effect on the result. The firmware version
  is a key of \<^verbatim>\<open>firmware_distribution\<close>, so it has to be hashable.
\<close>

definition analyze_vehicle :: "fleet_status \<Rightarrow> vkey \<times> json \<Rightarrow> py_error + fleet_status" where
  "analyze_vehicle fs entry =
    (let vid = fst entry;
         telemetry = snd entry;
         fs1 = fs\<lparr>total_vehicles := total_vehicles fs + 1\<rparr>
     in try_bind (extract_info telemetry) (\<lambda>(fw_version, percent, st, upd).
        try_bind (key_of fw_version) (\<lambda>fw_key.
          (let fs2 = fs1\<lparr>firmware_distribution := increment fw_key (firmware_distribution fs1)\<rparr>
           in if py_eq st (JStr (str_lit ''updating'')) then Inr (count_updating vid fs2)
              else if py_eq st (JStr (str_lit ''offline'')) then Inr (count_offline vid fs2)
              else if py_eq fw_version (JStr LATEST_FIRMWARE_VERSION)
                then Inr (count_up_to_date vid fs2)
              else try_bind (py_lt percent (JNum MINIMUM_BATTERY_PERCENT)) (\<lambda>low.
                     if low then Inr (count_low_battery vid fs2)
                     else Inr (count_eligible vid fs2))))))"

fun analyze_loop :: "fleet_status \<Rightarrow> vehicles \<Rightarrow> py_error + fleet_status" where
  "analyze_loop fs [] = Inr fs"
| "analyze_loop fs (entry # rest) =
    (case analyze_vehicle fs entry of Inl e \<Rightarrow> Inl e | Inr fs' \<Rightarrow> analyze_loop fs' rest)"

definition analyze_fleet :: "(py_error + json) list \<Rightarrow> py_error + fleet_status" where
  "analyze_fleet files = analyze_loop initial_fleet_status (dedup files)"


subsection \<open>Update manager: the eligibility rate of \<^verbatim>\<open>publish_update_metrics\<close>\<close>

text \<open>\<^verbatim>\<open>a / b\<close> on two \<^verbatim>\<open>int\<close>s: true division, \<^verbatim>\<open>ZeroDivisionError\<close> when \<open>b\<close> is 0.\<close>

definition py_truediv :: "int \<Rightarrow> int \<Rightarrow> py_error + real" where
  "py_truediv a b = (if b = 0 then Inl ZeroDivisionError else Inr (of_int a / of_int b))"

text \<open>The \<^verbatim>\<open>Value\<close> of the metric \<^verbatim>\<open>UpdateEligibilityRate\<close>.\<close>

definition update_eligibility_rate :: "fleet_status \<Rightarrow> py_error + real" where
  "update_eligibility_rate fs =
    (case py_truediv (update_eligible fs) (max (total_vehicles fs) 1) of
       Inl e \<Rightarrow> Inl e
     | Inr q \<Rightarrow> Inr (q * 100))"

subsection \<open>The classification as the specification words it\<close>



text \<open>A field of a dict, with the default for a missing key.\<close>

definition field :: "json \<Rightarrow> pystr \<Rightarrow> json \<Rightarrow> json" where
  "field t key dflt = (case py_get t key dflt of Inr v \<Rightarrow> v | Inl e \<Rightarrow> dflt)"





text \<open>
  A snapshot with the types of the persisted format, every field optional: a dict
  whose \<^verbatim>\<open>vehicle_id\<close> is hashable, whose \<^verbatim>\<open>timestamp\<close> and \<^verbatim>\<open>status\<close> are strings, whose
  \<^verbatim>\<open>firmware\<close> and \<^verbatim>\<open>battery\<close> are dicts, whose firmware version is a string and whose
  battery percent is a number.
\<close>

definition is_str :: "json \<Rightarrow> bool" where
  "is_str v = (case v of JStr s \<Rightarrow> True | _ \<Rightarrow> False)"

definition is_obj :: "json \<Rightarrow> bool" where
  "is_obj v = (case v of JObj kvs \<Rightarrow> True | _ \<Rightarrow> False)"



subsection \<open>Notions used in the statements\<close>

text \<open>The bounds that \<^verbatim>\<open>update_position\<close> clamps the state to.\<close>

definition gps_in_bounds :: "gps_simulator \<Rightarrow> bool" where
  "gps_in_bounds g =
    (- 85 \<le> latitude g \<and> latitude g \<le> 85 \<and> - 180 \<le> longitude g \<and> longitude g \<le> 180 \<and>
     0 \<le> speed_kmh g \<and> speed_kmh g \<le> 120)"

text \<open>
  \<open>r\<close> is \<open>x\<close> rounded to \<open>n\<close> decimal places: a multiple of \<open>10 ^ -n\<close>, at most half a
  unit of the last place away from \<open>x\<close>.
\<close>

definition rounded_to :: "nat \<Rightarrow> real \<Rightarrow> real \<Rightarrow> bool" where
  "rounded_to n x r =
    (of_int \<lfloor>r * 10 ^ n\<rfloor> = r * 10 ^ n \<and> \<bar>r - x\<bar> \<le> 1 / (2 * 10 ^ n))"

text \<open>The coordinates returned by a call are the stored ones, rounded to 6 places.\<close>

definition position_reported :: "(real \<times> real) \<times> gps_simulator \<Rightarrow> bool" where
  "position_reported r =
    (rounded_to 6 (latitude (snd r)) (fst (fst r)) \<and>
     rounded_to 6 (longitude (snd r)) (snd (fst r)))"

definition battery_in_range :: "vehicle \<Rightarrow> bool" where
  "battery_in_range v = (5 \<le> battery_percent v \<and> battery_percent v \<le> 100)"

text \<open>A tick of the battery: a non-negative elapsed time, and draws in the ranges of the calls.\<close>

definition valid_tick :: "int \<times> battery_draws \<Rightarrow> bool" where
  "valid_tick td = (0 \<le> fst td \<and> valid_battery_draws (snd td))"

text \<open>
  The key that the first loop of \<^verbatim>\<open>analyze_fleet\<close> files a snapshot under, and the
  timestamp it compares: \<^verbatim>\<open>telemetry.get('vehicle_id')\<close> and
  \<^verbatim>\<open>telemetry.get('timestamp', '')\<close>.
\<close>

definition vehicle_key :: "json \<Rightarrow> vkey" where
  "vehicle_key t = (case key_of (field t (str_lit ''vehicle_id'') JNull) of Inr k \<Rightarrow> k | Inl e \<Rightarrow> KNone)"

definition timestamp_of :: "json \<Rightarrow> pystr" where
  "timestamp_of t = (case field t (str_lit ''timestamp'') (JStr []) of JStr s \<Rightarrow> s | _ \<Rightarrow> [])"

text \<open>
  A snapshot that the first loop can group: a dict whose vehicle id is hashable and
  whose timestamp, when there is one, is a string.
\<close>

definition groupable :: "json \<Rightarrow> bool" where
  "groupable t =
    (is_obj t \<and> key_of (field t (str_lit ''vehicle_id'') JNull) \<noteq> Inl TypeError \<and>
     is_str (field t (str_lit ''timestamp'') (JStr [])))"

subsection \<open>Sample inputs\<close>

definition sample_gps :: gps_simulator where
  "sample_gps = \<lparr>latitude = 84, longitude = - 179, speed_kmh = 118\<rparr>"

definition sample_vehicle :: vehicle where
  "sample_vehicle =
    \<lparr>vehicle_id = 7, vin = str_lit ''5YJAAAAA9LA000001'', model = str_lit ''Model 3'', year = 2023,
     gps = sample_gps, firmware_version = str_lit ''1.2.0'', battery_percent = 26 / 5,
     battery_health = 95, odometer_km = 1000, status = ONLINE, connectivity = LTE,
     signal_strength = - 60, last_update_check = str_lit ''2025-01-01T10:00:00'',
     update_available = True, update_downloaded = False\<rparr>"

definition sample_gps_draws :: gps_draws where
  "sample_gps_draws = \<lparr>speed_change = 5, angle = 90, lat_factor = 1, lon_factor = - 1\<rparr>"

definition sample_battery_draws :: battery_draws where
  "sample_battery_draws = \<lparr>drain_sample = 1 / 2, charge_chance = 1 / 2, charge_amount = 10\<rparr>"

definition sample_charging_draws :: battery_draws where
  "sample_charging_draws = \<lparr>drain_sample = 1 / 10, charge_chance = 0, charge_amount = 30\<rparr>"

definition sample_tick_draws :: tick_draws where
  "sample_tick_draws =
    \<lparr>gps_d = sample_gps_draws, battery_d = sample_battery_draws,
     connectivity_chance = 1 / 2, new_connectivity = WIFI, new_signal_strength = - 50,
     offline_chance = 1 / 100, online_chance = 1 / 2, heading = 180, voltage = 380,
     temperature_celsius = 25, data_usage_mb = 10, health_score = 90,
     now = str_lit ''2025-01-01T10:01:00''\<rparr>"

definition sample_vin_draws :: vin_draws where
  "sample_vin_draws =
    \<lparr>vds = str_lit ''AAAAA'', year_code = of_char CHR ''L'',
     plant_code = of_char CHR ''A'',
     serial = [0, 0, 0, 0, 0, 1]\<rparr>"

text \<open>A snapshot with a vehicle id, a timestamp and a status, on firmware 1.0.0 at 10 percent.\<close>

definition sample_snapshot :: "real \<Rightarrow> string \<Rightarrow> string \<Rightarrow> json" where
  "sample_snapshot vid ts st =
    JObj [(str_lit ''vehicle_id'', JNum vid), (str_lit ''timestamp'', JStr (str_lit ts)),
          (str_lit ''status'', JStr (str_lit st)),
          (str_lit ''firmware'', JObj [(str_lit ''current_version'', JStr (str_lit ''1.0.0''))]),
          (str_lit ''battery'', JObj [(str_lit ''percent'', JNum 10)])]"

section \<open>Properties\<close>

subsection \<open>Helper facts\<close>

lemma str_lit_eq_iff: "str_lit a = str_lit b \<longleftrightarrow> a = b"
proof -
  have "inj (of_char :: char \<Rightarrow> nat)" by (simp add: inj_def)
  then show ?thesis unfolding str_lit_def by (rule inj_map_eq_map)
qed

lemma str_lit_less_iff: "str_lit a < str_lit b \<longleftrightarrow> a < b"
proof (induction a arbitrary: b)
  case Nil
  show ?case by (cases b) (simp_all add: str_lit_def)
next
  case (Cons x a)
  show ?case
  proof (cases b)
    case Nil
    then show ?thesis by (simp add: str_lit_def)
  next
    case (Cons y b')
    have "str_lit a < str_lit b' \<longleftrightarrow> a < b'" by (rule Cons.IH)
    then show ?thesis unfolding Cons by (simp add: str_lit_def less_char_def)
  qed
qed



subsection \<open>The eligibility rate\<close>

text \<open>
  Claim C8. For every fleet status the eligibility rate is computed without an
  exception, and its value is \<open>update_eligible / max (total_vehicles, 1) * 100\<close>; the
  report of an empty batch is the initial one, and its rate is 0.
\<close>

theorem eligibility_rate_never_divides_by_zero:
  "update_eligibility_rate fs =
     Inr (of_int (update_eligible fs) / of_int (max (total_vehicles fs) 1) * 100) \<and>
   analyze_fleet [] = Inr initial_fleet_status \<and>
   update_eligibility_rate initial_fleet_status = Inr 0"
proof -
  have "max (total_vehicles fs) 1 \<noteq> 0" by simp
  then have a: "update_eligibility_rate fs =
     Inr (of_int (update_eligible fs) / of_int (max (total_vehicles fs) 1) * 100)"
    by (simp add: update_eligibility_rate_def py_truediv_def)
  have b: "analyze_fleet [] = Inr initial_fleet_status"
    by (simp add: analyze_fleet_def dedup_def dedup_from_def)
  have c: "update_eligibility_rate initial_fleet_status = Inr 0"
    by (simp add: update_eligibility_rate_def py_truediv_def initial_fleet_status_def)
  from a b c show ?thesis by simp
qed

subsection \<open>The check digit\<close>














subsection \<open>Generated VINs\<close>

text \<open>
  Claim C2. The claim fails on the code: \<^verbatim>\<open>generate\<close> computes the check digit from
  15 characters (the slice \<^verbatim>\<open>[:8] + [9:]\<close> of the 16-character string drops the year
  code), so recomputing it from the other 16 characters of the returned VIN gives
  another character. For the draws \<open>sample_vin_draws\<close>, which are in the ranges of the
  random calls, the VIN is \<^verbatim>\<open>5YJAAAAA9LA000001\<close>: position 9 holds \<^verbatim>\<open>9\<close>, and the
  recomputation gives \<^verbatim>\<open>6\<close>.
\<close>

theorem generate_check_digit_mismatch:
  "valid_vin_draws sample_vin_draws \<and>
   generate unicode_latin1 (str_lit ''TESLA'') sample_vin_draws =
     Inr (str_lit ''5YJAAAAA9LA000001'') \<and>
   str_lit ''5YJAAAAA9LA000001'' ! 8 = of_char CHR ''9'' \<and>
   calculate_check_digit unicode_latin1
     (take 8 (str_lit ''5YJAAAAA9LA000001'') @ drop 9 (str_lit ''5YJAAAAA9LA000001''))
     = Inr (str_lit ''6'')"
  by (simp add: generate_def WMI_CODES_def calculate_check_digit_def char_value_def
      isdigit_def int_of_char_def unicode_latin1_def
      VIN_TRANSLITERATION_def VIN_WEIGHTS_def digit_char_def Let_def sample_vin_draws_def
      valid_vin_draws_def VDS_ALPHABET_def YEAR_ALPHABET_def PLANT_ALPHABET_def str_lit_def)

subsection \<open>The GPS simulator\<close>

lemma round_half_even_near: "\<bar>of_int (round_half_even y) - y\<bar> \<le> 1 / 2"
proof -
  have "of_int \<lfloor>y\<rfloor> \<le> y" "y < of_int \<lfloor>y\<rfloor> + 1" by linarith+
  then show ?thesis by (auto simp: round_half_even_def Let_def)
qed

lemma py_round_rounded: "rounded_to n x (py_round x n)"
proof -
  let ?k = "round_half_even (x * 10 ^ n)"
  have p: "(10::real) ^ n > 0" by simp
  have m: "py_round x n * 10 ^ n = of_int ?k" by (simp add: py_round_def)
  have h: "\<bar>of_int ?k - x * 10 ^ n\<bar> \<le> 1 / 2" by (rule round_half_even_near)
  have "\<bar>of_int ?k - x * 10 ^ n\<bar> / 10 ^ n \<le> (1 / 2) / 10 ^ n"
    by (rule divide_right_mono [OF h]) simp
  moreover have "\<bar>of_int ?k - x * 10 ^ n\<bar> / 10 ^ n = \<bar>py_round x n - x\<bar>"
  proof -
    have "py_round x n - x = (of_int ?k - x * 10 ^ n) / 10 ^ n"
      using p by (simp add: py_round_def diff_divide_distrib)
    then show ?thesis using p by (simp add: abs_divide)
  qed
  ultimately have "\<bar>py_round x n - x\<bar> \<le> 1 / (2 * 10 ^ n)" by simp
  then show ?thesis unfolding rounded_to_def m by simp
qed

lemma update_position_bounds:
  "gps_in_bounds (snd (update_position g t d)) \<and> position_reported (update_position g t d)"
proof -
  have a: "gps_in_bounds (snd (update_position g t d))"
    by (simp add: update_position_def Let_def gps_in_bounds_def)
  have b: "position_reported (update_position g t d)"
    by (simp add: update_position_def Let_def position_reported_def py_round_rounded)
  from a b show ?thesis by simp
qed

lemma update_positions_all:
  "list_all (\<lambda>r. gps_in_bounds (snd r) \<and> position_reported r) (update_positions g calls) \<and>
   length (update_positions g calls) = length calls"
proof (induction calls arbitrary: g)
  case Nil
  show ?case by simp
next
  case (Cons c calls)
  obtain t d where c: "c = (t, d)" by (cases c)
  show ?case using Cons.IH [of "snd (update_position g t d)"] update_position_bounds [of g t d]
    by (simp add: c Let_def)
qed

text \<open>
  Claim C6. For every simulator state and every sequence of calls of
  \<^verbatim>\<open>update_position\<close>, whatever the elapsed times and the draws, there is one result
  per call, and after each call the stored latitude is in \<open>[-85, 85]\<close> (hence in
  \<open>[-90, 90]\<close>), the longitude in \<open>[-180, 180]\<close> and the speed in \<open>[0, 120]\<close>; each
  coordinate returned is the stored one rounded to 6 places: a multiple of \<open>10 ^ -6\<close>
  that is at most \<open>5 * 10 ^ -7\<close> away from the stored coordinate.
\<close>

theorem update_position_keeps_bounds:
  "length (update_positions g calls) = length calls \<and>
   list_all (\<lambda>r. gps_in_bounds (snd r) \<and> - 90 \<le> latitude (snd r) \<and> latitude (snd r) \<le> 90 \<and>
                  position_reported r)
     (update_positions g calls)"
proof -
  have "gps_in_bounds s \<Longrightarrow> - 90 \<le> latitude s \<and> latitude s \<le> 90" for s
    by (simp add: gps_in_bounds_def)
  then show ?thesis using update_positions_all [of g calls]
    by (auto simp: list_all_iff)
qed

theorem update_position_keeps_bounds_witness:
  "update_positions sample_gps [(60, sample_gps_draws), (3600000, sample_gps_draws)] =
     [((84001802 / 1000000, - (179001802 / 1000000)),
       \<lparr>latitude = 84 + 1 / 555, longitude = - 179 - 1 / 555, speed_kmh = 120\<rparr>),
      ((85, - 180),
       \<lparr>latitude = 85, longitude = - 180, speed_kmh = 120\<rparr>)] \<and>
   rounded_to 6 (84 + 1 / 555) (84001802 / 1000000) \<and>
   \<not> rounded_to 6 (84 + 1 / 555) (84 + 1 / 555)"
proof -
  have e0: "update_positions sample_gps [(60, sample_gps_draws), (3600000, sample_gps_draws)] =
     [((py_round (84 + 1 / 555) 6, py_round (- 179 - 1 / 555) 6),
       \<lparr>latitude = 84 + 1 / 555, longitude = - 179 - 1 / 555, speed_kmh = 120\<rparr>),
      ((py_round 85 6, py_round (- 180) 6),
       \<lparr>latitude = 85, longitude = - 180, speed_kmh = 120\<rparr>)]"
    by (simp add: update_position_def Let_def sample_gps_def sample_gps_draws_def)
  have r1: "py_round (84 + 1 / 555) 6 = 84001802 / 1000000"
    by (simp add: py_round_def round_half_even_def)
  have r2: "py_round (- 179 - 1 / 555) 6 = - (179001802 / 1000000)"
    by (simp add: py_round_def round_half_even_def)
  have r3: "py_round 85 6 = 85"
    by (simp add: py_round_def round_half_even_def)
  have r4: "py_round (- 180) 6 = - 180"
    by (simp add: py_round_def round_half_even_def)
  have e: "update_positions sample_gps [(60, sample_gps_draws), (3600000, sample_gps_draws)] =
     [((84001802 / 1000000, - (179001802 / 1000000)),
       \<lparr>latitude = 84 + 1 / 555, longitude = - 179 - 1 / 555, speed_kmh = 120\<rparr>),
      ((85, - 180),
       \<lparr>latitude = 85, longitude = - 180, speed_kmh = 120\<rparr>)]"
    unfolding e0 r1 r2 r3 r4 ..
  have w: "rounded_to 6 (84 + 1 / 555) (84001802 / 1000000)"
    by (simp add: rounded_to_def)
  have n: "\<not> rounded_to 6 (84 + 1 / 555) (84 + 1 / 555)"
    by (simp add: rounded_to_def)
  from update_position_keeps_bounds
    [of sample_gps "[(60, sample_gps_draws), (3600000, sample_gps_draws)]"] e w n
  show ?thesis by blast
qed

subsection \<open>The battery\<close>

lemma simulate_battery_drain_range:
  assumes "battery_in_range v" and "0 \<le> t" and "valid_battery_draws d"
  shows "battery_in_range (simulate_battery_drain v t d)"
proof -
  from assms(2,3) have "0 \<le> drain_sample d * (of_int t / 60)"
    by (simp add: valid_battery_draws_def)
  moreover from assms(3) have "0 \<le> charge_amount d" by (simp add: valid_battery_draws_def)
  ultimately show ?thesis using assms(1)
    by (auto simp: simulate_battery_drain_def battery_in_range_def Let_def)
qed

lemma simulate_battery_drains_range:
  "battery_in_range v \<Longrightarrow> list_all valid_tick ticks \<Longrightarrow>
   battery_in_range (simulate_battery_drains v ticks)"
proof (induction ticks arbitrary: v)
  case Nil
  then show ?case by simp
next
  case (Cons c ticks)
  obtain t d where c: "c = (t, d)" by (cases c)
  from Cons.prems have "battery_in_range (simulate_battery_drain v t d)"
    by (intro simulate_battery_drain_range) (simp_all add: c valid_tick_def)
  with Cons.prems show ?case by (simp add: c Cons.IH)
qed

text \<open>
  Claim C5. A battery level in \<open>[5, 100]\<close> stays there through every sequence of
  calls of \<^verbatim>\<open>simulate_battery_drain\<close> with non-negative elapsed times and draws in the
  ranges of the random calls, charging included. The floor 5 is reached: the
  instance below ends one tick at exactly 5, and the next one charges from there.
\<close>

theorem battery_percent_stays_in_range:
  assumes "battery_in_range v" and "list_all valid_tick ticks"
  shows "5 \<le> battery_percent (simulate_battery_drains v ticks) \<and>
         battery_percent (simulate_battery_drains v ticks) \<le> 100"
  using simulate_battery_drains_range [OF assms] by (simp add: battery_in_range_def)

theorem battery_percent_stays_in_range_witness:
  "battery_in_range sample_vehicle \<and>
   list_all valid_tick [(60, sample_battery_draws), (0, sample_charging_draws)] \<and>
   battery_percent (simulate_battery_drains sample_vehicle [(60, sample_battery_draws)]) = 5 \<and>
   battery_percent (simulate_battery_drains sample_vehicle
     [(60, sample_battery_draws), (0, sample_charging_draws)]) = 35"
proof -
  have a: "battery_in_range sample_vehicle"
    by (simp add: battery_in_range_def sample_vehicle_def)
  have b: "list_all valid_tick [(60, sample_battery_draws), (0, sample_charging_draws)]"
    by (simp add: valid_tick_def valid_battery_draws_def sample_battery_draws_def
        sample_charging_draws_def)
  have c: "battery_percent (simulate_battery_drains sample_vehicle [(60, sample_battery_draws)]) = 5"
    by (simp add: simulate_battery_drain_def sample_vehicle_def sample_battery_draws_def Let_def)
  have d: "battery_percent (simulate_battery_drains sample_vehicle
     [(60, sample_battery_draws), (0, sample_charging_draws)]) = 35"
    by (simp add: simulate_battery_drain_def sample_vehicle_def sample_battery_draws_def
        sample_charging_draws_def Let_def)
  from battery_percent_stays_in_range [OF a b] a b c d show ?thesis by simp
qed

subsection \<open>The status of a vehicle through a tick\<close>

lemma status_simulate_battery_drain: "status (simulate_battery_drain v t d) = status v"
  by (simp add: simulate_battery_drain_def Let_def)

lemma status_after_tick:
  "status (snd (generate_telemetry v d)) =
    (if offline_chance d < 2 / 100 then OFFLINE
     else if status v = OFFLINE \<and> online_chance d < 3 / 10 then ONLINE
     else status v)"
  by (simp add: generate_telemetry_def tick_state_def Let_def split_beta
      status_simulate_battery_drain)

text \<open>
  Claim C3, as stated, fails: the test \<^verbatim>\<open>random.random() < 0.02\<close> of
  \<^verbatim>\<open>generate_telemetry\<close> does not look at the status, so a tick whose offline draw is
  0.01 takes a vehicle that is \<^verbatim>\<open>UPDATING\<close>, or in \<^verbatim>\<open>ERROR\<close>, to \<^verbatim>\<open>OFFLINE\<close>.
\<close>

theorem updating_goes_offline_counterexample:
  "status (sample_vehicle\<lparr>status := UPDATING\<rparr>) = UPDATING \<and>
   status (snd (generate_telemetry (sample_vehicle\<lparr>status := UPDATING\<rparr>) sample_tick_draws)) = OFFLINE \<and>
   status (snd (generate_telemetry (sample_vehicle\<lparr>status := ERROR\<rparr>) sample_tick_draws)) = OFFLINE"
  by (simp add: status_after_tick sample_tick_draws_def)

text \<open>
  Claim C3, amended. A vehicle that is \<^verbatim>\<open>UPDATING\<close> or in \<^verbatim>\<open>ERROR\<close> keeps its status
  through a tick when the offline draw is at least 0.02, and goes \<^verbatim>\<open>OFFLINE\<close> when the
  draw is below 0.02. No tick enters \<^verbatim>\<open>UPDATING\<close> or \<^verbatim>\<open>ERROR\<close>: a vehicle that is in
  one of them after a tick was in it before.
\<close>

theorem status_unchanged_unless_offline_draw:
  "(status v = UPDATING \<or> status v = ERROR \<longrightarrow>
      status (snd (generate_telemetry v d)) =
        (if offline_chance d < 2 / 100 then OFFLINE else status v)) \<and>
   (status (snd (generate_telemetry v d)) = UPDATING \<or>
    status (snd (generate_telemetry v d)) = ERROR \<longrightarrow>
      status v = status (snd (generate_telemetry v d)))"
  by (auto simp: status_after_tick split: if_splits)

theorem status_unchanged_unless_offline_draw_witness:
  "status (snd (generate_telemetry (sample_vehicle\<lparr>status := UPDATING\<rparr>)
     (sample_tick_draws\<lparr>offline_chance := 1 / 2\<rparr>))) = UPDATING \<and>
   status (snd (generate_telemetry (sample_vehicle\<lparr>status := ERROR\<rparr>)
     (sample_tick_draws\<lparr>offline_chance := 1 / 50\<rparr>))) = ERROR"
  using status_unchanged_unless_offline_draw
    [of "sample_vehicle\<lparr>status := UPDATING\<rparr>" "sample_tick_draws\<lparr>offline_chance := 1 / 2\<rparr>"]
    status_unchanged_unless_offline_draw
    [of "sample_vehicle\<lparr>status := ERROR\<rparr>" "sample_tick_draws\<lparr>offline_chance := 1 / 50\<rparr>"]
  by simp

subsection \<open>The first loop\<close>

lemma field_obj: "field (JObj kvs) key dflt = (case map_of kvs key of Some v \<Rightarrow> v | None \<Rightarrow> dflt)"
  by (simp add: field_def)

lemma is_obj_cases: "is_obj t \<Longrightarrow> \<exists>kvs. t = JObj kvs"
  by (cases t) (simp_all add: is_obj_def)

lemma is_str_cases: "is_str v \<Longrightarrow> \<exists>s. v = JStr s"
  by (cases v) (simp_all add: is_str_def)

lemma py_get_obj: "is_obj t \<Longrightarrow> py_get t key dflt = Inr (field t key dflt)"
  by (auto dest: is_obj_cases simp: field_obj)

lemma key_of_vehicle_key:
  "key_of v \<noteq> Inl TypeError \<Longrightarrow> key_of v = Inr (case key_of v of Inr k \<Rightarrow> k | Inl e \<Rightarrow> KNone)"
  by (cases v) simp_all

lemma groupable_timestamp: "groupable t \<Longrightarrow> field t (str_lit ''timestamp'') (JStr []) = JStr (timestamp_of t)"
  by (auto simp: groupable_def timestamp_of_def dest: is_str_cases)

lemma process_file_new:
  assumes "groupable t" and "map_of vs (vehicle_key t) = None"
  shows "process_file vs (Inr t) = AList.update (vehicle_key t) t vs"
proof -
  from assms(1) have o: "is_obj t" by (simp add: groupable_def)
  from assms(1) have k: "key_of (field t (str_lit ''vehicle_id'') JNull) = Inr (vehicle_key t)"
    unfolding vehicle_key_def groupable_def by (intro key_of_vehicle_key) simp
  show ?thesis
    by (simp add: process_file_def process_file_try_def py_get_obj [OF o] k assms(2))
qed

lemma process_file_kept:
  assumes "groupable t" and "map_of vs (vehicle_key t) = Some kept" and "groupable kept"
  shows "process_file vs (Inr t) =
    (if timestamp_of kept < timestamp_of t then AList.update (vehicle_key t) t vs else vs)"
proof -
  from assms(1) have o: "is_obj t" by (simp add: groupable_def)
  from assms(3) have o': "is_obj kept" by (simp add: groupable_def)
  from assms(1) have k: "key_of (field t (str_lit ''vehicle_id'') JNull) = Inr (vehicle_key t)"
    unfolding vehicle_key_def groupable_def by (intro key_of_vehicle_key) simp
  show ?thesis
    by (simp add: process_file_def process_file_try_def py_get_obj [OF o] py_get_obj [OF o'] k
        assms(2) groupable_timestamp [OF assms(1)] groupable_timestamp [OF assms(3)])
qed

lemma process_file_failed: "process_file vs (Inl e) = vs"
  by (simp add: process_file_def process_file_try_def)

lemma missing_timestamp: "map_of kvs (str_lit ''timestamp'') = None \<Longrightarrow> timestamp_of (JObj kvs) = []"
  by (simp add: timestamp_of_def field_obj)

text \<open>
  Claim C10. When the vehicle of a snapshot has a retained snapshot already, the
  first loop replaces the retained one exactly when the timestamp of the new one
  is strictly greater. So a new snapshot whose timestamp equals the retained one,
  and a new snapshot with no timestamp (it reads as the empty string), leave the
  snapshot processed first in place.
\<close>

theorem replacement_only_on_strictly_greater_timestamp:
  assumes "groupable t" and "map_of vs (vehicle_key t) = Some kept" and "groupable kept"
  shows "process_file vs (Inr t) =
      (if timestamp_of kept < timestamp_of t then AList.update (vehicle_key t) t vs else vs) \<and>
    (timestamp_of t = timestamp_of kept \<longrightarrow> process_file vs (Inr t) = vs) \<and>
    (\<forall>kvs. t = JObj kvs \<and> map_of kvs (str_lit ''timestamp'') = None \<longrightarrow> process_file vs (Inr t) = vs)"
proof -
  have a: "process_file vs (Inr t) =
      (if timestamp_of kept < timestamp_of t then AList.update (vehicle_key t) t vs else vs)"
    using assms by (rule process_file_kept)
  have b: "process_file vs (Inr t) = vs" if "timestamp_of t = timestamp_of kept"
    using a that by simp
  have c: "process_file vs (Inr t) = vs" if "t = JObj kvs \<and> map_of kvs (str_lit ''timestamp'') = None" for kvs
  proof -
    from that have "timestamp_of t = []" by (simp add: missing_timestamp)
    with a show ?thesis by simp
  qed
  from a b c show ?thesis by blast
qed

theorem replacement_only_on_strictly_greater_timestamp_witness:
  "dedup [Inr (sample_snapshot 7 ''2025-01-01T10:00:00'' ''online''),
          Inr (sample_snapshot 7 ''2025-01-01T10:00:00'' ''offline'')] =
     [(KNum 7, sample_snapshot 7 ''2025-01-01T10:00:00'' ''online'')] \<and>
   process_file [(KNum 7, sample_snapshot 7 ''2025-01-01T10:00:00'' ''online'')]
       (Inr (JObj [(str_lit ''vehicle_id'', JNum 7),
                   (str_lit ''status'', JStr (str_lit ''offline''))])) =
     [(KNum 7, sample_snapshot 7 ''2025-01-01T10:00:00'' ''online'')] \<and>
   process_file [(KNum 7, sample_snapshot 7 ''2025-01-01T10:00:00'' ''online'')]
       (Inr (sample_snapshot 7 ''2025-01-01T10:00:01'' ''offline'')) =
     [(KNum 7, sample_snapshot 7 ''2025-01-01T10:00:01'' ''offline'')]"
proof -
  let ?a = "sample_snapshot 7 ''2025-01-01T10:00:00'' ''online''"
  let ?b = "sample_snapshot 7 ''2025-01-01T10:00:00'' ''offline''"
  let ?c = "JObj [(str_lit ''vehicle_id'', JNum 7), (str_lit ''status'', JStr (str_lit ''offline''))]"
  let ?d = "sample_snapshot 7 ''2025-01-01T10:00:01'' ''offline''"
  have g: "groupable ?a" "groupable ?b" "groupable ?c" "groupable ?d"
    by (simp_all add: groupable_def sample_snapshot_def is_obj_def is_str_def field_obj
        str_lit_eq_iff)
  have k: "vehicle_key ?a = KNum 7" "vehicle_key ?b = KNum 7" "vehicle_key ?c = KNum 7"
      "vehicle_key ?d = KNum 7"
    by (simp_all add: vehicle_key_def sample_snapshot_def field_obj str_lit_eq_iff)
  have ts: "timestamp_of ?a = str_lit ''2025-01-01T10:00:00''"
      "timestamp_of ?b = str_lit ''2025-01-01T10:00:00''"
      "timestamp_of ?c = []" "timestamp_of ?d = str_lit ''2025-01-01T10:00:01''"
    by (simp_all add: timestamp_of_def sample_snapshot_def field_obj str_lit_eq_iff)
  have first: "dedup [Inr ?a] = [(KNum 7, ?a)]"
    using process_file_new [of ?a "[]"] g(1) by (simp add: dedup_def dedup_from_def k)
  have m: "map_of [(KNum 7, ?a)] (vehicle_key ?b) = Some ?a"
      "map_of [(KNum 7, ?a)] (vehicle_key ?c) = Some ?a"
      "map_of [(KNum 7, ?a)] (vehicle_key ?d) = Some ?a"
    by (simp_all add: k)
  have lt: "str_lit ''2025-01-01T10:00:00'' < str_lit ''2025-01-01T10:00:01''"
    by (simp add: str_lit_less_iff)
  have nlt: "\<not> str_lit ''2025-01-01T10:00:00'' < []"
    by simp
  have 1: "process_file [(KNum 7, ?a)] (Inr ?b) = [(KNum 7, ?a)]"
    using replacement_only_on_strictly_greater_timestamp [OF g(2) m(1) g(1)] by (simp add: ts)
  have 2: "process_file [(KNum 7, ?a)] (Inr ?c) = [(KNum 7, ?a)]"
    using replacement_only_on_strictly_greater_timestamp [OF g(3) m(2) g(1)] nlt
    by (simp add: ts)
  have 3: "process_file [(KNum 7, ?a)] (Inr ?d) = [(KNum 7, ?d)]"
    using replacement_only_on_strictly_greater_timestamp [OF g(4) m(3) g(1)] lt
    by (simp add: ts k)
  have "dedup [Inr ?a, Inr ?b] = process_file (dedup [Inr ?a]) (Inr ?b)"
    by (simp add: dedup_def dedup_from_def)
  with first 1 2 3 show ?thesis by simp
qed

subsection \<open>The invariant of the first loop\<close>

text \<open>
  The invariant: the map read from \<^verbatim>\<open>vehicles\<close> holds, for each key of a snapshot
  processed so far, a processed snapshot with this key whose timestamp is greatest
  among the processed snapshots with this key.
\<close>

lemma process_file_map:
  assumes "groupable t"
    and "\<forall>k u. map_of vs k = Some u \<longrightarrow> groupable u"
  shows "map_of (process_file vs (Inr t)) =
    (case map_of vs (vehicle_key t) of
       None \<Rightarrow> (map_of vs)(vehicle_key t \<mapsto> t)
     | Some kept \<Rightarrow>
         if timestamp_of kept < timestamp_of t then (map_of vs)(vehicle_key t \<mapsto> t)
         else map_of vs)"
proof (cases "map_of vs (vehicle_key t)")
  case None
  with assms(1) show ?thesis by (simp add: process_file_new update_conv')
next
  case (Some kept)
  with assms(2) have "groupable kept" by blast
  with assms(1) Some show ?thesis by (simp add: process_file_kept update_conv')
qed

lemma retained_step:
  fixes m :: "vkey \<Rightarrow> json option"
  assumes g: "groupable t"
    and inv1: "\<forall>k u. m k = Some u \<longrightarrow>
        u \<in> S \<and> groupable u \<and> vehicle_key u = k \<and>
        (\<forall>w\<in>S. vehicle_key w = k \<longrightarrow> timestamp_of w \<le> timestamp_of u)"
    and inv2: "\<forall>w\<in>S. m (vehicle_key w) \<noteq> None"
    and m': "m' = (case m (vehicle_key t) of
       None \<Rightarrow> m(vehicle_key t \<mapsto> t)
     | Some kept \<Rightarrow> if timestamp_of kept < timestamp_of t then m(vehicle_key t \<mapsto> t) else m)"
  shows "(\<forall>k u. m' k = Some u \<longrightarrow>
        u \<in> insert t S \<and> groupable u \<and> vehicle_key u = k \<and>
        (\<forall>w\<in>insert t S. vehicle_key w = k \<longrightarrow> timestamp_of w \<le> timestamp_of u)) \<and>
      (\<forall>w\<in>insert t S. m' (vehicle_key w) \<noteq> None)"
proof (cases "m (vehicle_key t)")
  case None
  then have m'': "m' = m(vehicle_key t \<mapsto> t)" by (simp add: m')
  from None inv2 have new: "\<forall>w\<in>S. vehicle_key w \<noteq> vehicle_key t" by metis
  show ?thesis
  proof (intro conjI allI impI ballI)
    fix k u assume u: "m' k = Some u"
    show "u \<in> insert t S" using u inv1 by (auto simp: m'' split: if_splits)
    show "groupable u" using u inv1 g by (auto simp: m'' split: if_splits)
    show "vehicle_key u = k" using u inv1 by (auto simp: m'' split: if_splits)
    fix w assume w: "w \<in> insert t S" "vehicle_key w = k"
    show "timestamp_of w \<le> timestamp_of u"
    proof (cases "k = vehicle_key t")
      case True
      with u have "u = t" by (simp add: m'')
      moreover from True w new have "w = t" by auto
      ultimately show ?thesis by simp
    next
      case False
      with u have "m k = Some u" by (simp add: m'')
      moreover from False w have "w \<in> S" by auto
      ultimately show ?thesis using inv1 w(2) by blast
    qed
  next
    fix w assume "w \<in> insert t S"
    then show "m' (vehicle_key w) \<noteq> None" using inv2 by (auto simp: m'')
  qed
next
  case (Some kept)
  from Some inv1 have kept: "kept \<in> S" "vehicle_key kept = vehicle_key t"
      "\<forall>w\<in>S. vehicle_key w = vehicle_key t \<longrightarrow> timestamp_of w \<le> timestamp_of kept"
    by blast+
  show ?thesis
  proof (cases "timestamp_of kept < timestamp_of t")
    case True
    with Some have m'': "m' = m(vehicle_key t \<mapsto> t)" by (simp add: m')
    show ?thesis
    proof (intro conjI allI impI ballI)
      fix k u assume u: "m' k = Some u"
      show "u \<in> insert t S" using u inv1 by (auto simp: m'' split: if_splits)
      show "groupable u" using u inv1 g by (auto simp: m'' split: if_splits)
      show "vehicle_key u = k" using u inv1 by (auto simp: m'' split: if_splits)
      fix w assume w: "w \<in> insert t S" "vehicle_key w = k"
      show "timestamp_of w \<le> timestamp_of u"
      proof (cases "k = vehicle_key t")
        case k: True
        with u have ut: "u = t" by (simp add: m'')
        show ?thesis
        proof (cases "w = t")
          case True
          with ut show ?thesis by simp
        next
          case False
          with w k have "w \<in> S" "vehicle_key w = vehicle_key t" by auto
          with kept(3) have "timestamp_of w \<le> timestamp_of kept" by blast
          with True ut show ?thesis by simp
        qed
      next
        case False
        with u have "m k = Some u" by (simp add: m'')
        moreover from False w have "w \<in> S" by auto
        ultimately show ?thesis using inv1 w(2) by blast
      qed
    next
      fix w assume "w \<in> insert t S"
      then show "m' (vehicle_key w) \<noteq> None" using inv2 by (auto simp: m'')
    qed
  next
    case False
    with Some have m'': "m' = m" by (simp add: m')
    show ?thesis
    proof (intro conjI allI impI ballI)
      fix k u assume u: "m' k = Some u"
      show "u \<in> insert t S" using u inv1 by (auto simp: m'')
      show "groupable u" using u inv1 by (auto simp: m'')
      show "vehicle_key u = k" using u inv1 by (auto simp: m'')
      fix w assume w: "w \<in> insert t S" "vehicle_key w = k"
      show "timestamp_of w \<le> timestamp_of u"
      proof (cases "w = t")
        case True
        with w have k: "k = vehicle_key t" by simp
        with u Some have "u = kept" by (simp add: m'')
        with False True show ?thesis by simp
      next
        case False
        with w have "w \<in> S" by simp
        with u w(2) inv1 show ?thesis unfolding m'' by blast
      qed
    next
      fix w assume "w \<in> insert t S"
      then show "m' (vehicle_key w) \<noteq> None" using inv2 Some by (auto simp: m'')
    qed
  qed
qed

lemma dedup_from_retained:
  assumes "\<forall>t. Inr t \<in> set files \<longrightarrow> groupable t"
    and "\<forall>k u. map_of vs k = Some u \<longrightarrow>
        u \<in> S \<and> groupable u \<and> vehicle_key u = k \<and>
        (\<forall>w\<in>S. vehicle_key w = k \<longrightarrow> timestamp_of w \<le> timestamp_of u)"
    and "\<forall>w\<in>S. map_of vs (vehicle_key w) \<noteq> None"
  shows "(\<forall>k u. map_of (dedup_from vs files) k = Some u \<longrightarrow>
        u \<in> S \<union> {t. Inr t \<in> set files} \<and> groupable u \<and> vehicle_key u = k \<and>
        (\<forall>w\<in>S \<union> {t. Inr t \<in> set files}. vehicle_key w = k \<longrightarrow>
           timestamp_of w \<le> timestamp_of u)) \<and>
      (\<forall>w\<in>S \<union> {t. Inr t \<in> set files}. map_of (dedup_from vs files) (vehicle_key w) \<noteq> None)"
  using assms
proof (induction files arbitrary: vs S)
  case Nil
  then show ?case by (simp add: dedup_from_def)
next
  case (Cons f files)
  have unfold: "dedup_from vs (x # files) = dedup_from (process_file vs x) files" for x
    by (simp add: dedup_from_def)
  from Cons.prems(1) have rest: "\<forall>t. Inr t \<in> set files \<longrightarrow> groupable t" by simp
  show ?case
  proof (cases f)
    case (Inl e)
    have s: "S \<union> {t. Inr t \<in> set (Inl e # files)} = S \<union> {t. Inr t \<in> set files}"
      by auto
    show ?thesis unfolding Inl unfold s process_file_failed
      using Cons.IH [OF rest Cons.prems(2) Cons.prems(3)] .
  next
    case (Inr t)
    from Cons.prems(1) have g: "groupable t" by (simp add: Inr)
    have s: "S \<union> {u. Inr u \<in> set (Inr t # files)} = insert t S \<union> {u. Inr u \<in> set files}"
      by auto
    from Cons.prems(2) have gs: "\<forall>k u. map_of vs k = Some u \<longrightarrow> groupable u" by blast
    note step = retained_step [OF g Cons.prems(2) Cons.prems(3) process_file_map [OF g gs]]
    show ?thesis unfolding Inr unfold s
      using Cons.IH [OF rest conjunct1 [OF step] conjunct2 [OF step]] .
  qed
qed

lemma dedup_retained:
  assumes "\<forall>t. Inr t \<in> set files \<longrightarrow> groupable t"
  shows "(\<forall>k u. map_of (dedup files) k = Some u \<longrightarrow>
        Inr u \<in> set files \<and> groupable u \<and> vehicle_key u = k \<and>
        (\<forall>w. Inr w \<in> set files \<and> vehicle_key w = k \<longrightarrow> timestamp_of w \<le> timestamp_of u)) \<and>
      (\<forall>w. Inr w \<in> set files \<longrightarrow> map_of (dedup files) (vehicle_key w) \<noteq> None)"
  using dedup_from_retained [of files "[]" "{}"] assms unfolding dedup_def by simp

lemma dedup_latest_iff:
  assumes typed: "\<forall>t. Inr t \<in> set files \<longrightarrow> groupable t"
    and sep: "\<forall>t u. Inr t \<in> set files \<and> Inr u \<in> set files \<and> vehicle_key t = vehicle_key u \<and>
        timestamp_of t = timestamp_of u \<longrightarrow> t = u"
  shows "map_of (dedup files) k = Some t \<longleftrightarrow>
    Inr t \<in> set files \<and> vehicle_key t = k \<and>
    (\<forall>u. Inr u \<in> set files \<and> vehicle_key u = k \<longrightarrow> timestamp_of u \<le> timestamp_of t)"
proof
  assume "map_of (dedup files) k = Some t"
  with dedup_retained [OF typed] show "Inr t \<in> set files \<and> vehicle_key t = k \<and>
    (\<forall>u. Inr u \<in> set files \<and> vehicle_key u = k \<longrightarrow> timestamp_of u \<le> timestamp_of t)"
    by blast
next
  assume r: "Inr t \<in> set files \<and> vehicle_key t = k \<and>
    (\<forall>u. Inr u \<in> set files \<and> vehicle_key u = k \<longrightarrow> timestamp_of u \<le> timestamp_of t)"
  with dedup_retained [OF typed] obtain u where u: "map_of (dedup files) k = Some u"
    by blast
  with dedup_retained [OF typed] have u': "Inr u \<in> set files" "vehicle_key u = k"
      "\<forall>w. Inr w \<in> set files \<and> vehicle_key w = k \<longrightarrow> timestamp_of w \<le> timestamp_of u"
    by blast+
  from r u' have "timestamp_of t \<le> timestamp_of u" "timestamp_of u \<le> timestamp_of t"
    by blast+
  then have ts: "timestamp_of t = timestamp_of u" by simp
  have "t = u"
  proof (rule sep [rule_format])
    from r u'(1,2) ts
    show "Inr t \<in> set files \<and> Inr u \<in> set files \<and> vehicle_key t = vehicle_key u \<and>
        timestamp_of t = timestamp_of u"
      by simp
  qed
  with u show "map_of (dedup files) k = Some t" by simp
qed

text \<open>
  Claim C4. Take a batch whose downloaded snapshots can be grouped, and in which two
  different snapshots of one vehicle never carry the same timestamp. Then the
  snapshot retained for a vehicle is the snapshot of this vehicle whose timestamp
  is greatest, and a batch made of the same snapshots in any other order retains
  the same snapshot for every vehicle.
\<close>

theorem dedup_retains_greatest_timestamp:
  assumes typed: "\<forall>t. Inr t \<in> set files \<longrightarrow> groupable t"
    and sep: "\<forall>t u. Inr t \<in> set files \<and> Inr u \<in> set files \<and> vehicle_key t = vehicle_key u \<and>
        timestamp_of t = timestamp_of u \<longrightarrow> t = u"
  shows "(map_of (dedup files) k = Some t \<longleftrightarrow>
      Inr t \<in> set files \<and> vehicle_key t = k \<and>
      (\<forall>u. Inr u \<in> set files \<and> vehicle_key u = k \<longrightarrow> timestamp_of u \<le> timestamp_of t)) \<and>
    (set files' = set files \<longrightarrow> map_of (dedup files') = map_of (dedup files))"
proof -
  have a: "map_of (dedup files) k = Some t \<longleftrightarrow>
      Inr t \<in> set files \<and> vehicle_key t = k \<and>
      (\<forall>u. Inr u \<in> set files \<and> vehicle_key u = k \<longrightarrow> timestamp_of u \<le> timestamp_of t)"
    for k t
    using typed sep by (rule dedup_latest_iff)
  have b: "map_of (dedup files') = map_of (dedup files)" if same: "set files' = set files"
  proof -
    from typed sep same
    have typed': "\<forall>t. Inr t \<in> set files' \<longrightarrow> groupable t"
      and sep': "\<forall>t u. Inr t \<in> set files' \<and> Inr u \<in> set files' \<and> vehicle_key t = vehicle_key u \<and>
        timestamp_of t = timestamp_of u \<longrightarrow> t = u"
      by simp_all
    have eq: "map_of (dedup files') k = Some t \<longleftrightarrow> map_of (dedup files) k = Some t" for k t
      unfolding a dedup_latest_iff [OF typed' sep'] same ..
    have "map_of (dedup files') k = map_of (dedup files) k" for k
    proof (cases "map_of (dedup files) k")
      case (Some u)
      with eq [of k u] show ?thesis by simp
    next
      case None
      show ?thesis
      proof (cases "map_of (dedup files') k")
        case (Some u)
        with eq [of k u] None show ?thesis by simp
      next
        case None': None
        with None show ?thesis by simp
      qed
    qed
    then show ?thesis by (rule ext)
  qed
  from a [of k t] b show ?thesis by simp
qed

lemma str_lit_le_iff: "str_lit a \<le> str_lit b \<longleftrightarrow> a \<le> b"
  by (simp add: le_less str_lit_less_iff str_lit_eq_iff)

theorem dedup_retains_greatest_timestamp_witness:
  "map_of (dedup [Inr (sample_snapshot 7 ''2025-01-01T10:00:00'' ''online''),
                  Inr (sample_snapshot 7 ''2025-01-01T10:05:00'' ''offline''),
                  Inr (sample_snapshot 8 ''2025-01-01T09:00:00'' ''online'')]) (KNum 7) =
     Some (sample_snapshot 7 ''2025-01-01T10:05:00'' ''offline'') \<and>
   map_of (dedup [Inr (sample_snapshot 7 ''2025-01-01T10:05:00'' ''offline''),
                  Inr (sample_snapshot 8 ''2025-01-01T09:00:00'' ''online''),
                  Inr (sample_snapshot 7 ''2025-01-01T10:00:00'' ''online'')]) =
   map_of (dedup [Inr (sample_snapshot 7 ''2025-01-01T10:00:00'' ''online''),
                  Inr (sample_snapshot 7 ''2025-01-01T10:05:00'' ''offline''),
                  Inr (sample_snapshot 8 ''2025-01-01T09:00:00'' ''online'')])"
proof -
  let ?a = "sample_snapshot 7 ''2025-01-01T10:00:00'' ''online''"
  let ?b = "sample_snapshot 7 ''2025-01-01T10:05:00'' ''offline''"
  let ?c = "sample_snapshot 8 ''2025-01-01T09:00:00'' ''online''"
  let ?files = "[Inr ?a, Inr ?b, Inr ?c] :: (py_error + json) list"
  let ?files' = "[Inr ?b, Inr ?c, Inr ?a] :: (py_error + json) list"
  have g: "groupable ?a" "groupable ?b" "groupable ?c"
    by (simp_all add: groupable_def sample_snapshot_def is_obj_def is_str_def field_obj
        str_lit_eq_iff)
  have k: "vehicle_key ?a = KNum 7" "vehicle_key ?b = KNum 7" "vehicle_key ?c = KNum 8"
    by (simp_all add: vehicle_key_def sample_snapshot_def field_obj str_lit_eq_iff)
  have ts: "timestamp_of ?a = str_lit ''2025-01-01T10:00:00''"
      "timestamp_of ?b = str_lit ''2025-01-01T10:05:00''"
      "timestamp_of ?c = str_lit ''2025-01-01T09:00:00''"
    by (simp_all add: timestamp_of_def sample_snapshot_def field_obj str_lit_eq_iff)
  have typed: "\<forall>t. Inr t \<in> set ?files \<longrightarrow> groupable t"
    using g by auto
  have sep: "\<forall>t u. Inr t \<in> set ?files \<and> Inr u \<in> set ?files \<and> vehicle_key t = vehicle_key u \<and>
        timestamp_of t = timestamp_of u \<longrightarrow> t = u"
    by (auto simp: k ts str_lit_eq_iff)
  have latest: "Inr ?b \<in> set ?files \<and> vehicle_key ?b = KNum 7 \<and>
      (\<forall>u. Inr u \<in> set ?files \<and> vehicle_key u = KNum 7 \<longrightarrow> timestamp_of u \<le> timestamp_of ?b)"
    by (auto simp: k ts str_lit_le_iff)
  have same: "set ?files' = set ?files" by auto
  from dedup_retains_greatest_timestamp [OF typed sep, of "KNum 7" ?b ?files'] latest same
  show ?thesis by blast
qed

subsection \<open>The second loop\<close>
















subsection \<open>What the first loop keeps\<close>













subsection \<open>The report of \<^verbatim>\<open>analyze_fleet\<close>\<close>





subsection \<open>Snapshots with missing fields\<close>




end
